theory Spec2Isabelle
  imports Complex_Main "HOL-Library.Log_Nat"
begin

section \<open>JavaScript values used by the application\<close>

text \<open>
  A JavaScript string is a sequence of UTF-16 code units; \<open>s.length\<close> counts them.
  A string is modelled as the list of its code units, and \<open>ascii\<close> embeds an ASCII
  literal. A JavaScript number is an IEEE 754 double. Where the code divides, multiplies
  or adds numbers and then takes \<open>Math.floor\<close> or \<open>Math.round\<close> (the resampler, the
  weighted score), a number is modelled as the rational it denotes and every operation
  rounds its exact result to the nearest double (\<open>fl\<close> below). Scores are integers
  (the response schema declares them \<open>INTEGER\<close>). The playback clock is modelled over
  the reals: its values are only compared and added, never floored or rounded.
\<close>

type_synonym jsstring = "nat list"

definition ascii :: "string \<Rightarrow> jsstring" where
  "ascii cs = map of_char cs"

text \<open>The code units that \<open>String.prototype.trim\<close> strips (ECMAScript WhiteSpace and
  LineTerminator).\<close>

definition isWhiteSpace :: "nat \<Rightarrow> bool" where
  "isWhiteSpace c \<longleftrightarrow>
     c \<in> {9, 10, 11, 12, 13, 32, 160, 5760, 8232, 8233, 8239, 8287, 12288, 65279}
     \<or> (8192 \<le> c \<and> c \<le> 8202)"

definition trim :: "jsstring \<Rightarrow> jsstring" where
  "trim s = rev (dropWhile isWhiteSpace (rev (dropWhile isWhiteSpace s)))"

text \<open>\<open>Math.round\<close>: the nearest integer, ties towards plus infinity.\<close>

definition Math_round :: "rat \<Rightarrow> int" where
  "Math_round x = \<lfloor>x + 1 / 2\<rfloor>"

subsection \<open>Rounding to the nearest double\<close>

text \<open>\<open>rne\<close> rounds to the nearest integer, ties to the even one.\<close>

definition rne :: "rat \<Rightarrow> int" where
  "rne y = (let f = \<lfloor>y\<rfloor>; d = y - of_int f in
            if d < 1 / 2 then f else if 1 / 2 < d then f + 1
            else if even f then f else f + 1)"

text \<open>For a positive \<open>x\<close>, \<open>expo x\<close> is the exponent \<open>e\<close> with
  \<open>2^e \<le> x < 2^(e+1)\<close>, found from the bit lengths of numerator and denominator.\<close>

definition expo :: "rat \<Rightarrow> int" where
  "expo x = (case quotient_of x of (p, q) \<Rightarrow>
             (let e0 = bitlen p - bitlen q in if 2 powi e0 \<le> x then e0 else e0 - 1))"

text \<open>
  \<open>fl x\<close> is the double nearest to \<open>x\<close>, ties to the even significand: 53
  significant bits, and below \<open>2^-1022\<close> the fixed spacing \<open>2^-1074\<close> of the
  subnormal numbers. A result too large for a double (\<open>Infinity\<close>) is not a rational;
  \<open>overflows\<close> tells when \<open>fl\<close> does not apply.
\<close>

definition fl :: "rat \<Rightarrow> rat" where
  "fl x = (if x = 0 then 0
           else (let u = 2 powi (max (expo \<bar>x\<bar>) (- 1022) - 52)
                 in sgn x * (of_int (rne (\<bar>x\<bar> / u)) * u)))"















section \<open>services/gemini.ts: evaluateSession\<close>

datatype fluency = Beginner | Intermediate | Advanced | Native

record evaluation =
  overallScore :: int
  vocabularyScore :: int
  grammarScore :: int
  pronunciationScore :: int
  feedback :: jsstring
  fluencyRating :: fluency
  transcript :: jsstring

text \<open>
  The object \<open>JSON.parse(response.text || "{}")\<close>: every property may be missing
  (\<open>None\<close>). \<open>CollabError\<close> stands for any exception inside the \<open>try\<close> block
  (the request fails, or the text is not JSON).
\<close>

record eval_json =
  j_overallScore :: "int option"
  j_vocabularyScore :: "int option"
  j_grammarScore :: "int option"
  j_pronunciationScore :: "int option"
  j_fluencyRating :: "fluency option"
  j_feedback :: "jsstring option"

datatype collab_reply = CollabError | Reply eval_json

text \<open>\<open>x || d\<close> on a number and on a string: a missing property, \<open>0\<close> and \<open>""\<close> are
  falsy.\<close>

definition num_or :: "int option \<Rightarrow> int \<Rightarrow> int" where
  "num_or x d = (case x of None \<Rightarrow> d | Some n \<Rightarrow> if n = 0 then d else n)"

definition str_or :: "jsstring option \<Rightarrow> jsstring \<Rightarrow> jsstring" where
  "str_or x d = (case x of None \<Rightarrow> d | Some s \<Rightarrow> if s = [] then d else s)"

definition tooShortFeedback :: jsstring where
  "tooShortFeedback =
     ascii ''A sess'' @ [227] @ ascii ''o foi muito curta para avaliar corretamente. Continue praticando!''"

definition defaultFeedback :: jsstring where
  "defaultFeedback = ascii ''Bom esfor'' @ [231] @ ascii ''o!''"

definition connectionFeedback :: jsstring where
  "connectionFeedback =
     ascii ''N'' @ [227] @ ascii ''o foi poss'' @ [237]
     @ ascii ''vel gerar um relat'' @ [243]
     @ ascii ''rio detalhado devido a um problema de conex'' @ [227]
     @ ascii ''o, mas bom trabalho na pr'' @ [225] @ ascii ''tica!''"

text \<open>
  \<open>evaluateSession collab transcript\<close> returns the evaluation together with the list of
  requests sent to the evaluation collaborator (\<open>ai.models.generateContent\<close>), which is
  the parameter \<open>collab\<close>.
\<close>

text \<open>\<open>(vocab * 0.3) + (grammar * 0.3) + (pronunciation * 0.4)\<close>, each literal, product
  and sum a double.\<close>

definition weightedScore :: "int \<Rightarrow> int \<Rightarrow> int \<Rightarrow> rat" where
  "weightedScore vocab grammar pronunciation =
     fl (fl (fl (of_int vocab * fl (3 / 10)) + fl (of_int grammar * fl (3 / 10)))
         + fl (of_int pronunciation * fl (4 / 10)))"

definition evaluateSession ::
  "(jsstring \<Rightarrow> collab_reply) \<Rightarrow> jsstring \<Rightarrow> evaluation \<times> jsstring list" where
  "evaluateSession collab t =
     (if t = [] \<or> length (trim t) < 10 then
        (\<lparr>overallScore = 10, vocabularyScore = 10, grammarScore = 10,
          pronunciationScore = 10, feedback = tooShortFeedback,
          fluencyRating = Beginner, transcript = t\<rparr>, [])
      else
        (case collab t of
           Reply result \<Rightarrow>
             (let vocab = num_or (j_vocabularyScore result) 0;
                  grammar = num_or (j_grammarScore result) 0;
                  pronunciation = num_or (j_pronunciationScore result) 0;
                  calculatedOverall =
                    num_or (j_overallScore result)
                      (Math_round (weightedScore vocab grammar pronunciation))
              in (\<lparr>overallScore = calculatedOverall, vocabularyScore = vocab,
                   grammarScore = grammar, pronunciationScore = pronunciation,
                   feedback = str_or (j_feedback result) defaultFeedback,
                   fluencyRating = (case j_fluencyRating result of None \<Rightarrow> Beginner | Some f \<Rightarrow> f),
                   transcript = t\<rparr>, [t]))
         | CollabError \<Rightarrow>
             (\<lparr>overallScore = 50, vocabularyScore = 50, grammarScore = 50,
               pronunciationScore = 50, feedback = connectionFeedback,
               fluencyRating = Beginner, transcript = t\<rparr>, [t])))"

lemma length_trim_le: "length (trim s) \<le> length s"
proof -
  have "length (trim s) \<le> length (dropWhile isWhiteSpace s)"
    unfolding trim_def using length_dropWhile_le [of isWhiteSpace "rev (dropWhile isWhiteSpace s)"]
    by simp
  also have "\<dots> \<le> length s" by (rule length_dropWhile_le)
  finally show ?thesis .
qed

text \<open>
  C9. A transcript that is empty or shorter than 10 code units gets the fixed low-score
  result (all four scores 10, rating Beginner) and no request is sent to the evaluation
  collaborator.
\<close>

theorem evaluateSession_short_transcript:
  assumes "length t < 10"
  shows "overallScore (fst (evaluateSession collab t)) = 10
       \<and> vocabularyScore (fst (evaluateSession collab t)) = 10
       \<and> grammarScore (fst (evaluateSession collab t)) = 10
       \<and> pronunciationScore (fst (evaluateSession collab t)) = 10
       \<and> fluencyRating (fst (evaluateSession collab t)) = Beginner
       \<and> snd (evaluateSession collab t) = []"
proof -
  have "length (trim t) < 10"
    using assms length_trim_le [of t] by linarith
  then show ?thesis by (simp add: evaluateSession_def)
qed

theorem evaluateSession_short_transcript_witness:
  "length ([] :: jsstring) < 10
   \<and> overallScore (fst (evaluateSession (\<lambda>_. CollabError) [])) = 10
   \<and> fluencyRating (fst (evaluateSession (\<lambda>_. CollabError) (ascii ''User: Hi''))) = Beginner
   \<and> snd (evaluateSession (\<lambda>_. CollabError) (ascii ''User: Hi'')) = []"
  using evaluateSession_short_transcript [of "[]" "\<lambda>_. CollabError"]
        evaluateSession_short_transcript [of "ascii ''User: Hi''" "\<lambda>_. CollabError"]
  by (simp add: ascii_def)

text \<open>
  C10. The claim says that an overall score that is zero or inconsistent with the
  component scores is recomputed. The code recomputes only a falsy one
  (\<open>result.overallScore || Math.round(...)\<close>, with the comment "Fallback calculation if
  model returns 0 for overall"): a non-zero overall score is returned as the collaborator
  gave it, consistent or not.
\<close>

definition weightedOverall :: "evaluation \<Rightarrow> int" where
  "weightedOverall e =
     Math_round (weightedScore (vocabularyScore e) (grammarScore e) (pronunciationScore e))"

definition sampleTranscript :: jsstring where
  "sampleTranscript = ascii ''User: Hello there''"

definition inconsistentReply :: eval_json where
  "inconsistentReply =
     \<lparr>j_overallScore = Some 90, j_vocabularyScore = Some 10, j_grammarScore = Some 10,
      j_pronunciationScore = Some 10, j_fluencyRating = Some Beginner, j_feedback = None\<rparr>"

definition zeroOverallReply :: eval_json where
  "zeroOverallReply =
     \<lparr>j_overallScore = Some 0, j_vocabularyScore = Some 70, j_grammarScore = Some 85,
      j_pronunciationScore = Some 60, j_fluencyRating = Some Intermediate, j_feedback = None\<rparr>"

text \<open>Components 57, 96 and 44: the exact weighted value is 63.5, the doubles sum to
  just below it.\<close>

definition roundingReply :: eval_json where
  "roundingReply =
     \<lparr>j_overallScore = Some 0, j_vocabularyScore = Some 57, j_grammarScore = Some 96,
      j_pronunciationScore = Some 44, j_fluencyRating = Some Intermediate, j_feedback = None\<rparr>"

lemma weightedScore_values:
  "Math_round (weightedScore 10 10 10) = 10" "Math_round (weightedScore 50 50 50) = 50"
  "Math_round (weightedScore 70 85 60) = 71" "Math_round (weightedScore 57 96 44) = 63"
  by code_simp+

lemma sampleTranscript_long:
  "sampleTranscript \<noteq> [] \<and> \<not> length (trim sampleTranscript) < 10"
  by (simp add: sampleTranscript_def ascii_def trim_def isWhiteSpace_def)

text \<open>C10, the claim as stated fails: the collaborator answers 90 with all three
  component scores at 10 (weighted value 10), and 90 is returned.\<close>

theorem evaluateSession_inconsistent_overall_kept:
  "overallScore (fst (evaluateSession (\<lambda>_. Reply inconsistentReply) sampleTranscript)) = 90
   \<and> weightedOverall (fst (evaluateSession (\<lambda>_. Reply inconsistentReply) sampleTranscript)) = 10"
  using sampleTranscript_long
  by (simp add: evaluateSession_def inconsistentReply_def num_or_def weightedOverall_def
      weightedScore_values)

text \<open>
  C10, amended. When the collaborator's overall score is missing or zero, the returned
  overall score is \<open>Math.round\<close> of the weighted value of the returned component
  scores as the code computes it, in doubles; the two fixed results (short transcript,
  failed request) satisfy the formula as well. A non-zero overall score from the
  collaborator is returned unchanged.
\<close>

theorem evaluateSession_overall:
  "(t = [] \<or> length (trim t) < 10 \<or> collab t = CollabError
      \<or> (\<exists>r. collab t = Reply r \<and> (j_overallScore r = None \<or> j_overallScore r = Some 0))
     \<longrightarrow> overallScore (fst (evaluateSession collab t))
         = weightedOverall (fst (evaluateSession collab t)))
   \<and> (t \<noteq> [] \<and> \<not> length (trim t) < 10 \<and> collab t = Reply r'
        \<and> j_overallScore r' = Some n \<and> n \<noteq> 0
     \<longrightarrow> overallScore (fst (evaluateSession collab t)) = n)"
  by (auto simp: evaluateSession_def num_or_def weightedOverall_def weightedScore_values
      Let_def split: collab_reply.splits)

theorem evaluateSession_overall_witness:
  "overallScore (fst (evaluateSession (\<lambda>_. Reply zeroOverallReply) sampleTranscript)) = 71
   \<and> weightedOverall (fst (evaluateSession (\<lambda>_. Reply zeroOverallReply) sampleTranscript)) = 71
   \<and> overallScore (fst (evaluateSession (\<lambda>_. Reply roundingReply) sampleTranscript)) = 63
   \<and> overallScore (fst (evaluateSession (\<lambda>_. Reply inconsistentReply) sampleTranscript)) = 90"
proof -
  let ?e = "fst (evaluateSession (\<lambda>_. Reply zeroOverallReply) sampleTranscript)"
  have z: "j_overallScore zeroOverallReply = Some 0"
    by (simp add: zeroOverallReply_def)
  have "overallScore ?e = weightedOverall ?e"
    using evaluateSession_overall [of sampleTranscript "\<lambda>_. Reply zeroOverallReply"] z
    by blast
  moreover have "weightedOverall ?e = 71"
    using sampleTranscript_long
    by (simp add: evaluateSession_def zeroOverallReply_def num_or_def weightedOverall_def
        weightedScore_values)
  moreover have "overallScore (fst (evaluateSession (\<lambda>_. Reply roundingReply) sampleTranscript)) = 63"
  proof -
    let ?r = "fst (evaluateSession (\<lambda>_. Reply roundingReply) sampleTranscript)"
    have "j_overallScore roundingReply = Some 0" by (simp add: roundingReply_def)
    then have "overallScore ?r = weightedOverall ?r"
      using evaluateSession_overall [of sampleTranscript "\<lambda>_. Reply roundingReply"] by blast
    moreover have "weightedOverall ?r = 63"
      using sampleTranscript_long
      by (simp add: evaluateSession_def roundingReply_def num_or_def weightedOverall_def
          weightedScore_values)
    ultimately show ?thesis by simp
  qed
  moreover have "overallScore (fst (evaluateSession (\<lambda>_. Reply inconsistentReply) sampleTranscript)) = 90"
    using evaluateSession_overall
            [of sampleTranscript "\<lambda>_. Reply inconsistentReply" inconsistentReply 90]
          sampleTranscript_long
    by (simp add: inconsistentReply_def)
  ultimately show ?thesis by simp
qed


section \<open>hooks/useLiveAvatar.ts: the realtime session bridge\<close>

text \<open>
  Exceptions are values: a computation that may throw returns \<open>exn + 'a\<close>, with
  \<open>Inl\<close> the exception. \<open>bindE\<close> sequences two statements and \<open>tryCatch\<close> is
  \<open>try { ... } catch (e) { ... }\<close>. The hook runs on one event loop; \<open>onmessage\<close>
  and the \<open>ended\<close> listener are modelled as running to their end before the next
  handler starts, and \<open>disconnect\<close> is split at its \<open>await\<close>, where other handlers
  may run.
\<close>

datatype exn = RangeError | InvalidStateError | DecodeError | ConnectionError

definition bindE :: "exn + 'a \<Rightarrow> ('a \<Rightarrow> exn + 'b) \<Rightarrow> exn + 'b" where
  "bindE m f = (case m of Inl e \<Rightarrow> Inl e | Inr x \<Rightarrow> f x)"

definition tryCatch :: "exn + 'a \<Rightarrow> (exn \<Rightarrow> 'a) \<Rightarrow> 'a" where
  "tryCatch m h = (case m of Inl e \<Rightarrow> h e | Inr x \<Rightarrow> x)"

subsection \<open>Capture: resampling to 16 kHz\<close>



record audio_context =
  sampleRate :: rat




subsection \<open>The bridge state\<close>

text \<open>
  An \<open>AudioBufferSourceNode\<close>: its identity, the duration of its buffer and the time
  given to \<open>start\<close> (\<open>None\<close> before \<open>start\<close> is called). By the Web Audio API,
  \<open>start\<close> throws for a negative time or a second call, and \<open>stop\<close> throws on a node
  that was never started.
\<close>

record source_node =
  sid :: nat
  duration :: real
  startedAt :: "real option"

definition start :: "real \<Rightarrow> source_node \<Rightarrow> exn + source_node" where
  "start when src =
     (if startedAt src \<noteq> None then Inl InvalidStateError
      else if when < 0 then Inl RangeError
      else Inr (src\<lparr>startedAt := Some when\<rparr>))"

text \<open>The session promise, by the outcome it settles with. A handler that awaits it is
  suspended until it has settled.\<close>

datatype session_promise = Fulfilled nat | Rejected

datatype effect =
    TranscriptUpdate jsstring bool
  | SourceStarted nat real
  | SourceStopped nat
  | SessionClosed nat
  | InputContextClosed
  | OutputContextClosed
  | TrackStopped nat
  | ConsoleError

text \<open>
  The refs and the state of the hook. \<open>stream\<close> is the microphone stream by its tracks,
  \<open>sources\<close> the set \<open>sourcesRef\<close> in insertion order, \<open>created\<close> the number of
  source nodes created so far (the identity of the next one), and \<open>effects\<close> the calls
  made on the outside world, in order.
\<close>

record bridge =
  isConnected :: bool
  isTalking :: bool
  inputAudioContext :: "audio_context option"
  outputAudioContext :: "audio_context option"
  analyser :: bool
  stream :: "nat list option"
  nextStartTime :: real
  sources :: "source_node list"
  sessionPromise :: "session_promise option"
  created :: nat
  effects :: "effect list"

definition emit :: "effect list \<Rightarrow> bridge \<Rightarrow> bridge" where
  "emit es s = s\<lparr>effects := effects s @ es\<rparr>"

definition stop :: "source_node \<Rightarrow> bridge \<Rightarrow> exn + bridge" where
  "stop src s =
     (if startedAt src = None then Inl InvalidStateError
      else Inr (emit [SourceStopped (sid src)] s))"

text \<open>\<open>sourcesRef.current.forEach(s => s.stop())\<close>, and the same with each call inside
  \<open>try { } catch(e) {}\<close>.\<close>

fun stopEach :: "source_node list \<Rightarrow> bridge \<Rightarrow> exn + bridge" where
  "stopEach [] s = Inr s"
| "stopEach (src # rest) s = bindE (stop src s) (stopEach rest)"

fun stopEachCaught :: "source_node list \<Rightarrow> bridge \<Rightarrow> bridge" where
  "stopEachCaught [] s = s"
| "stopEachCaught (src # rest) s = stopEachCaught rest (tryCatch (stop src s) (\<lambda>e. s))"

subsection \<open>disconnect\<close>

text \<open>
  \<open>disconnect\<close> is \<open>async\<close>. With \<open>sessionPromiseRef\<close> set, an invocation stops at
  \<open>await sessionPromiseRef.current\<close> holding the promise it has read, and the rest of
  its body runs later, once the promise has settled; until then other handlers run, and
  so may other invocations of \<open>disconnect\<close> (it is called without \<open>await\<close> from
  \<open>onerror\<close>, from the \<open>catch\<close> of \<open>connect\<close> and from the unmount cleanup).
  \<open>disconnectStart\<close> is the part up to the \<open>await\<close>, \<open>disconnectResume\<close> the part
  after it. With the ref \<open>null\<close> there is no \<open>await\<close> and the whole body runs at once.
\<close>

datatype invocation = Awaiting session_promise | Completed bridge

text \<open>The rest of the \<open>if\<close> block after the \<open>await\<close>: \<open>session.close()\<close> inside the
  \<open>try\<close>, a rejected promise caught and logged, then the ref set to \<open>null\<close>.\<close>

definition afterAwait :: "session_promise \<Rightarrow> bridge \<Rightarrow> bridge" where
  "afterAwait p s =
     (tryCatch
        (case p of Rejected \<Rightarrow> Inl ConnectionError
         | Fulfilled session \<Rightarrow> Inr (emit [SessionClosed session] s))
        (\<lambda>e. emit [ConsoleError] s))
     \<lparr>sessionPromise := None\<rparr>"

definition stopSources :: "bridge \<Rightarrow> bridge" where
  "stopSources s = (stopEachCaught (sources s) s)\<lparr>sources := []\<rparr>"

definition closeContexts :: "bridge \<Rightarrow> bridge" where
  "closeContexts s =
     (let s1 = (if inputAudioContext s \<noteq> None
                then (emit [InputContextClosed] s)\<lparr>inputAudioContext := None\<rparr> else s)
      in if outputAudioContext s1 \<noteq> None
         then (emit [OutputContextClosed] s1)\<lparr>outputAudioContext := None\<rparr> else s1)"

definition stopStream :: "bridge \<Rightarrow> bridge" where
  "stopStream s =
     (case stream s of
        None \<Rightarrow> s
      | Some tracks \<Rightarrow> (emit (map TrackStopped tracks) s)\<lparr>stream := None\<rparr>)"

text \<open>The body after the \<open>if\<close> block.\<close>

definition teardown :: "bridge \<Rightarrow> bridge" where
  "teardown s =
     (stopStream (closeContexts (stopSources s)))\<lparr>isConnected := False, isTalking := False\<rparr>"

definition disconnectStart :: "bridge \<Rightarrow> invocation" where
  "disconnectStart s =
     (case sessionPromise s of
        None \<Rightarrow> Completed (teardown s)
      | Some p \<Rightarrow> Awaiting p)"

definition disconnectResume :: "session_promise \<Rightarrow> bridge \<Rightarrow> bridge" where
  "disconnectResume p s = teardown (afterAwait p s)"

text \<open>An invocation that no other handler interleaves with, as under
  \<open>await disconnect()\<close> in \<open>handleFinish\<close>.\<close>

definition disconnect :: "bridge \<Rightarrow> exn + bridge" where
  "disconnect s =
     Inr (case disconnectStart s of
            Completed s1 \<Rightarrow> s1
          | Awaiting p \<Rightarrow> disconnectResume p s)"

subsection \<open>onmessage\<close>

record server_message =
  outputTranscription :: "jsstring option"
  inputTranscription :: "jsstring option"
  inlineData :: "jsstring option"
  interrupted :: bool

text \<open>\<open>if (x) f(x)\<close> on an optional string: a missing property and \<open>""\<close> are falsy.\<close>

definition whenText :: "jsstring option \<Rightarrow> (jsstring \<Rightarrow> 'a \<Rightarrow> 'a) \<Rightarrow> 'a \<Rightarrow> 'a" where
  "whenText x f s = (case x of None \<Rightarrow> s | Some t \<Rightarrow> if t = [] then s else f t s)"

definition handleTranscriptions :: "server_message \<Rightarrow> bridge \<Rightarrow> bridge" where
  "handleTranscriptions m s =
     whenText (inputTranscription m) (\<lambda>t. emit [TranscriptUpdate t True])
       (whenText (outputTranscription m) (\<lambda>t. emit [TranscriptUpdate t False]) s)"

text \<open>
  The body of the \<open>try\<close> block. \<open>decodeAudioData\<close> (with \<open>decode\<close>, of
  \<open>utils/audio\<close>, which is not among the sources) is a parameter: it gives the duration
  of the decoded buffer, or \<open>None\<close> when it throws.
\<close>

definition playBuffer :: "(jsstring \<Rightarrow> real option) \<Rightarrow> jsstring \<Rightarrow> bridge \<Rightarrow> exn + bridge" where
  "playBuffer decodeAudioData base64Audio s =
     (case decodeAudioData base64Audio of
        None \<Rightarrow> Inl DecodeError
      | Some d \<Rightarrow>
          bindE (start (nextStartTime s) \<lparr>sid = created s, duration = d, startedAt = None\<rparr>)
            (\<lambda>source.
               Inr ((emit [SourceStarted (sid source) (nextStartTime s)] s)
                    \<lparr>created := Suc (created s),
                     nextStartTime := nextStartTime s + d,
                     sources := sources s @ [source]\<rparr>)))"

definition handleAudio ::
  "(jsstring \<Rightarrow> real option) \<Rightarrow> real \<Rightarrow> server_message \<Rightarrow> bridge \<Rightarrow> bridge" where
  "handleAudio decodeAudioData currentTime m s =
     whenText (inlineData m)
       (\<lambda>base64Audio s.
          if outputAudioContext s \<noteq> None \<and> analyser s then
            (let s1 = s\<lparr>isTalking := True,
                        nextStartTime := max (nextStartTime s) currentTime\<rparr>
             in tryCatch (playBuffer decodeAudioData base64Audio s1)
                  (\<lambda>e. emit [ConsoleError] s1))
          else s)
       s"

definition handleInterruption :: "server_message \<Rightarrow> bridge \<Rightarrow> exn + bridge" where
  "handleInterruption m s =
     (if interrupted m then
        bindE (stopEach (sources s) s)
          (\<lambda>s1. Inr (s1\<lparr>sources := [], nextStartTime := 0, isTalking := False\<rparr>))
      else Inr s)"

definition onmessage ::
  "(jsstring \<Rightarrow> real option) \<Rightarrow> real \<Rightarrow> server_message \<Rightarrow> bridge \<Rightarrow> exn + bridge" where
  "onmessage decodeAudioData currentTime m s =
     handleInterruption m
       (handleAudio decodeAudioData currentTime m (handleTranscriptions m s))"

text \<open>The \<open>ended\<close> listener of the source with identity \<open>i\<close>.\<close>

definition onended :: "nat \<Rightarrow> bridge \<Rightarrow> bridge" where
  "onended i s =
     (let s1 = s\<lparr>sources := filter (\<lambda>src. sid src \<noteq> i) (sources s)\<rparr>
      in if sources s1 = [] then s1\<lparr>isTalking := False\<rparr> else s1)"

text \<open>Messages handled one after the other, each at its own clock reading.\<close>

fun onmessages ::
  "(jsstring \<Rightarrow> real option) \<Rightarrow> (real \<times> server_message) list \<Rightarrow> bridge \<Rightarrow> exn + bridge" where
  "onmessages decodeAudioData [] s = Inr s"
| "onmessages decodeAudioData ((currentTime, m) # rest) s =
     bindE (onmessage decodeAudioData currentTime m s) (onmessages decodeAudioData rest)"

text \<open>The hook before \<open>connect\<close>, and once \<open>connect\<close> has run and the session is open.\<close>

definition idleBridge :: bridge where
  "idleBridge =
     \<lparr>isConnected = False, isTalking = False, inputAudioContext = None,
      outputAudioContext = None, analyser = False, stream = None, nextStartTime = 0,
      sources = [], sessionPromise = None, created = 0, effects = []\<rparr>"

definition openBridge :: bridge where
  "openBridge =
     idleBridge\<lparr>isConnected := True,
                inputAudioContext := Some \<lparr>sampleRate = 48000\<rparr>,
                outputAudioContext := Some \<lparr>sampleRate = 24000\<rparr>,
                analyser := True, stream := Some [0],
                sessionPromise := Some (Fulfilled 0)\<rparr>"

definition audioDelta :: "jsstring \<Rightarrow> server_message" where
  "audioDelta base64Audio =
     \<lparr>outputTranscription = None, inputTranscription = None,
      inlineData = Some base64Audio, interrupted = False\<rparr>"

definition interruption :: server_message where
  "interruption =
     \<lparr>outputTranscription = None, inputTranscription = None,
      inlineData = None, interrupted = True\<rparr>"


subsection \<open>Properties of the resampler\<close>




















subsection \<open>Interruption\<close>

text \<open>Every source in the live set has been started: \<open>onmessage\<close> adds a source only
  after \<open>start\<close> returned.\<close>

definition allStarted :: "bridge \<Rightarrow> bool" where
  "allStarted s \<longleftrightarrow> list_all (\<lambda>src. startedAt src \<noteq> None) (sources s)"

lemma stopEach_started:
  "list_all (\<lambda>src. startedAt src \<noteq> None) srcs \<Longrightarrow>
   stopEach srcs s = Inr (emit (map (\<lambda>src. SourceStopped (sid src)) srcs) s)"
proof (induction srcs arbitrary: s)
  case Nil
  then show ?case by (simp add: emit_def)
next
  case (Cons src rest)
  then show ?case by (simp add: stop_def bindE_def emit_def)
qed

lemma handleTranscriptions_frame:
  "sources (handleTranscriptions m s) = sources s
   \<and> nextStartTime (handleTranscriptions m s) = nextStartTime s
   \<and> isTalking (handleTranscriptions m s) = isTalking s
   \<and> outputAudioContext (handleTranscriptions m s) = outputAudioContext s
   \<and> analyser (handleTranscriptions m s) = analyser s
   \<and> created (handleTranscriptions m s) = created s"
  by (simp add: handleTranscriptions_def whenText_def emit_def split: option.splits)

lemma handleAudio_allStarted: "allStarted s \<Longrightarrow> allStarted (handleAudio dec now m s)"
  by (auto simp: allStarted_def handleAudio_def whenText_def playBuffer_def start_def bindE_def
      tryCatch_def emit_def Let_def split: option.splits)

lemma handleAudio_keeps_sources:
  "set (sources s) \<subseteq> set (sources (handleAudio dec now m s))"
  by (auto simp: handleAudio_def whenText_def playBuffer_def start_def bindE_def
      tryCatch_def emit_def Let_def split: option.splits)

lemma onmessage_allStarted:
  "allStarted s \<Longrightarrow> onmessage dec now m s = Inr s' \<Longrightarrow> allStarted s'"
proof -
  assume a: "allStarted s" and r: "onmessage dec now m s = Inr s'"
  let ?s2 = "handleAudio dec now m (handleTranscriptions m s)"
  have "allStarted (handleTranscriptions m s)"
    using a handleTranscriptions_frame [of m s] by (simp add: allStarted_def)
  then have s2: "allStarted ?s2" by (rule handleAudio_allStarted)
  then have st: "list_all (\<lambda>src. startedAt src \<noteq> None) (sources ?s2)"
    by (simp add: allStarted_def)
  show "allStarted s'"
    using r s2 stopEach_started [OF st, of ?s2]
    by (auto simp: onmessage_def handleInterruption_def bindE_def allStarted_def emit_def
        split: if_splits)
qed

lemma onended_allStarted: "allStarted s \<Longrightarrow> allStarted (onended i s)"
  by (auto simp: allStarted_def onended_def Let_def list_all_iff)

text \<open>
  C2. A message that carries the interruption signal stops every buffer that is live
  when the signal is handled (those queued before the message, and the one the message
  itself may have added), and leaves the live set empty, the cursor at 0 and
  \<open>isTalking\<close> false. The handler does not throw: the live sources have all been
  started.
\<close>

theorem interruption_clears_playback:
  assumes "interrupted m" and "allStarted s"
  shows "\<exists>s'. onmessage dec now m s = Inr s'
           \<and> sources s' = [] \<and> nextStartTime s' = 0 \<and> \<not> isTalking s'
           \<and> (\<forall>src \<in> set (sources s). SourceStopped (sid src) \<in> set (effects s'))
           \<and> (\<forall>src \<in> set (sources (handleAudio dec now m (handleTranscriptions m s))).
                 SourceStopped (sid src) \<in> set (effects s'))"
proof -
  let ?s1 = "handleTranscriptions m s"
  let ?s2 = "handleAudio dec now m ?s1"
  let ?s3 = "emit (map (\<lambda>src. SourceStopped (sid src)) (sources ?s2)) ?s2"
  let ?s' = "?s3\<lparr>sources := [], nextStartTime := 0, isTalking := False\<rparr>"
  have "allStarted ?s1"
    using assms(2) handleTranscriptions_frame [of m s] by (simp add: allStarted_def)
  then have "allStarted ?s2" by (rule handleAudio_allStarted)
  then have st: "list_all (\<lambda>src. startedAt src \<noteq> None) (sources ?s2)"
    by (simp add: allStarted_def)
  have run: "onmessage dec now m s = Inr ?s'"
    using assms(1) stopEach_started [OF st, of ?s2]
    by (simp add: onmessage_def handleInterruption_def bindE_def)
  have new: "\<forall>src \<in> set (sources ?s2). SourceStopped (sid src) \<in> set (effects ?s')"
    by (simp add: emit_def)
  have "set (sources s) \<subseteq> set (sources ?s2)"
    using handleAudio_keeps_sources [of ?s1 dec now m] handleTranscriptions_frame [of m s]
    by simp
  then have old: "\<forall>src \<in> set (sources s). SourceStopped (sid src) \<in> set (effects ?s')"
    using new by blast
  show ?thesis using run old new by simp
qed

text \<open>Three buffers of one second each, queued from time 1 on.\<close>

definition oneSecond :: "jsstring \<Rightarrow> real option" where
  "oneSecond b = Some 1"

definition threeQueued :: bridge where
  "threeQueued =
     openBridge\<lparr>isTalking := True, nextStartTime := 4,
       sources := [\<lparr>sid = 0, duration = 1, startedAt = Some 1\<rparr>,
                   \<lparr>sid = 1, duration = 1, startedAt = Some 2\<rparr>,
                   \<lparr>sid = 2, duration = 1, startedAt = Some 3\<rparr>],
       created := 3,
       effects := [SourceStarted 0 1, SourceStarted 1 2, SourceStarted 2 3]\<rparr>"

lemma threeQueued_reached:
  "onmessages oneSecond
     [(1, audioDelta (ascii ''AAAA'')), (3 / 2, audioDelta (ascii ''AAAA'')),
      (5 / 2, audioDelta (ascii ''AAAA''))] openBridge = Inr threeQueued"
  by (simp add: onmessage_def handleInterruption_def handleAudio_def handleTranscriptions_def
      whenText_def playBuffer_def start_def bindE_def tryCatch_def emit_def Let_def
      audioDelta_def openBridge_def idleBridge_def threeQueued_def oneSecond_def ascii_def)

theorem interruption_clears_playback_witness:
  "\<exists>s'. onmessage oneSecond 2 interruption threeQueued = Inr s'
      \<and> sources s' = [] \<and> nextStartTime s' = 0 \<and> \<not> isTalking s'
      \<and> SourceStopped 0 \<in> set (effects s') \<and> SourceStopped 1 \<in> set (effects s')
      \<and> SourceStopped 2 \<in> set (effects s')"
proof -
  have i: "interrupted interruption" by (simp add: interruption_def)
  have a: "allStarted threeQueued" by (simp add: allStarted_def threeQueued_def)
  obtain s' where r: "onmessage oneSecond 2 interruption threeQueued = Inr s'"
    and p: "sources s' = []" "nextStartTime s' = 0" "\<not> isTalking s'"
    and q: "\<forall>src \<in> set (sources threeQueued). SourceStopped (sid src) \<in> set (effects s')"
    using interruption_clears_playback [OF i a, of oneSecond 2] by blast
  have "SourceStopped 0 \<in> set (effects s') \<and> SourceStopped 1 \<in> set (effects s')
      \<and> SourceStopped 2 \<in> set (effects s')"
    using q by (simp add: threeQueued_def)
  then show ?thesis using r p by blast
qed


subsection \<open>isTalking and the live set\<close>

text \<open>A decoder that rejects the payload \<open>"!"\<close> (it is not base64) and decodes every
  other payload to one second of audio.\<close>

definition rejectBang :: "jsstring \<Rightarrow> real option" where
  "rejectBang b = (if b = ascii ''!'' then None else Some 1)"

lemma handleAudio_talking_iff_live:
  assumes "isTalking s \<longleftrightarrow> sources s \<noteq> []"
    and "\<forall>b. inlineData m = Some b \<longrightarrow> dec b \<noteq> None"
    and "0 \<le> now"
  shows "isTalking (handleAudio dec now m s) \<longleftrightarrow> sources (handleAudio dec now m s) \<noteq> []"
  using assms
  by (auto simp: handleAudio_def whenText_def playBuffer_def start_def bindE_def
      tryCatch_def emit_def Let_def max_def split: option.splits if_splits)

lemma handleInterruption_talking_iff_live:
  assumes "isTalking s \<longleftrightarrow> sources s \<noteq> []" and "handleInterruption m s = Inr s'"
  shows "isTalking s' \<longleftrightarrow> sources s' \<noteq> []"
  using assms
  by (auto simp: handleInterruption_def bindE_def split: if_splits sum.splits)

text \<open>When every payload decodes, \<open>onmessage\<close> and the \<open>ended\<close> listener keep
  \<open>isTalking\<close> equal to "the live set is not empty".\<close>

lemma onmessage_talking_iff_live:
  assumes "isTalking s \<longleftrightarrow> sources s \<noteq> []"
    and "\<forall>b. inlineData m = Some b \<longrightarrow> dec b \<noteq> None"
    and "0 \<le> now"
    and "onmessage dec now m s = Inr s'"
  shows "isTalking s' \<longleftrightarrow> sources s' \<noteq> []"
proof -
  let ?s1 = "handleTranscriptions m s"
  have "isTalking ?s1 \<longleftrightarrow> sources ?s1 \<noteq> []"
    using assms(1) handleTranscriptions_frame [of m s] by simp
  then have "isTalking (handleAudio dec now m ?s1) \<longleftrightarrow> sources (handleAudio dec now m ?s1) \<noteq> []"
    using assms(2,3) by (rule handleAudio_talking_iff_live)
  then show ?thesis
    using assms(4) unfolding onmessage_def by (rule handleInterruption_talking_iff_live)
qed

lemma onended_talking_iff_live:
  assumes "isTalking s \<longleftrightarrow> sources s \<noteq> []"
  shows "isTalking (onended i s) \<longleftrightarrow> sources (onended i s) \<noteq> []"
  using assms by (auto simp: onended_def Let_def filter_empty_conv)

text \<open>
  C6. The claim fails on the code when a payload does not decode: \<open>isTalking\<close> is set
  before the \<open>try\<close> block and the \<open>catch\<close> branch does not reset it. With no buffer
  live, after the message \<open>isTalking\<close> is true and the live set is empty.
\<close>

theorem decode_error_leaves_talking:
  "map_sum id (\<lambda>s. (isTalking s, sources s))
     (onmessage rejectBang 1 (audioDelta (ascii ''!'')) openBridge) = Inr (True, [])"
  by (simp add: onmessage_def handleInterruption_def handleAudio_def handleTranscriptions_def
      whenText_def playBuffer_def tryCatch_def emit_def Let_def
      audioDelta_def openBridge_def idleBridge_def rejectBang_def ascii_def)


subsection \<open>disconnect in sequence and overlapping\<close>

text \<open>\<open>disconnect\<close> invoked \<open>n\<close> times in a row, each invocation after the previous
  one has completed.\<close>

fun repeatDisconnect :: "nat \<Rightarrow> bridge \<Rightarrow> exn + bridge" where
  "repeatDisconnect 0 s = Inr s"
| "repeatDisconnect (Suc n) s = bindE (disconnect s) (repeatDisconnect n)"

lemma emit_emit: "emit b (emit a s) = emit (a @ b) s"
  by (simp add: emit_def)

lemma emit_Nil: "emit [] s = s"
  by (simp add: emit_def)

lemma stopEachCaught_eq:
  "stopEachCaught srcs s =
     emit (map (\<lambda>src. SourceStopped (sid src)) (filter (\<lambda>src. startedAt src \<noteq> None) srcs)) s"
proof (induction srcs arbitrary: s)
  case Nil
  then show ?case by (simp add: emit_Nil)
next
  case (Cons src rest)
  then show ?case by (simp add: stop_def tryCatch_def emit_emit emit_Nil)
qed

text \<open>What one invocation emits: the session is closed if the promise was fulfilled (a
  rejected promise is logged), the started sources are stopped, the two contexts are
  closed, the tracks of the stream are stopped.\<close>

definition released :: "bridge \<Rightarrow> effect list" where
  "released s =
     (case sessionPromise s of None \<Rightarrow> []
      | Some Rejected \<Rightarrow> [ConsoleError]
      | Some (Fulfilled session) \<Rightarrow> [SessionClosed session])
     @ map (\<lambda>src. SourceStopped (sid src)) (filter (\<lambda>src. startedAt src \<noteq> None) (sources s))
     @ (if inputAudioContext s = None then [] else [InputContextClosed])
     @ (if outputAudioContext s = None then [] else [OutputContextClosed])
     @ (case stream s of None \<Rightarrow> [] | Some tracks \<Rightarrow> map TrackStopped tracks)"

lemma disconnect_eq:
  "disconnect s =
     Inr (s\<lparr>isConnected := False, isTalking := False, inputAudioContext := None,
            outputAudioContext := None, stream := None, sources := [],
            sessionPromise := None, effects := effects s @ released s\<rparr>)"
  by (cases "sessionPromise s"; cases "stream s"; cases "the (sessionPromise s)")
     (simp_all add: disconnect_def disconnectStart_def disconnectResume_def teardown_def
      afterAwait_def stopSources_def closeContexts_def stopStream_def stopEachCaught_eq
      tryCatch_def emit_def released_def Let_def)

lemma count_list_map_inj:
  "inj f \<Longrightarrow> count_list (map f xs) (f x) = count_list xs x"
  by (induction xs) (auto simp: inj_def)

lemma count_list_map_other:
  "(\<And>y. f y \<noteq> e) \<Longrightarrow> count_list (map f xs) e = 0"
  by (induction xs) auto

lemma count_released_session:
  "count_list (released s) (SessionClosed k)
     = (if sessionPromise s = Some (Fulfilled k) then 1 else 0)"
  by (simp add: released_def count_list_map_other split: option.splits session_promise.splits)

lemma count_released_input:
  "count_list (released s) InputContextClosed = (if inputAudioContext s = None then 0 else 1)"
  by (simp add: released_def count_list_map_other split: option.splits session_promise.splits)

lemma count_released_output:
  "count_list (released s) OutputContextClosed = (if outputAudioContext s = None then 0 else 1)"
  by (simp add: released_def count_list_map_other split: option.splits session_promise.splits)

lemma count_released_track:
  "count_list (released s) (TrackStopped t)
     = (case stream s of None \<Rightarrow> 0 | Some tracks \<Rightarrow> count_list tracks t)"
  by (simp add: released_def count_list_map_other count_list_map_inj inj_def
      split: option.splits session_promise.splits)

lemma repeatDisconnect_fixed:
  "disconnect s1 = Inr s1 \<Longrightarrow> repeatDisconnect n s1 = Inr s1"
  by (induction n) (simp_all add: bindE_def)

text \<open>
  Invocations that run one after the other: none throws; the second, and an invocation
  on the idle bridge, changes nothing and releases nothing, so any number of them leaves
  the state of the first; the session is closed once if there is one, each of the two
  audio contexts is closed once if it exists, and each track of the microphone stream is
  stopped once. (The hook creates no timer.)
\<close>

lemma disconnect_in_sequence:
  "\<exists>s1 new.
      disconnect s = Inr s1
    \<and> disconnect s1 = Inr s1
    \<and> repeatDisconnect (Suc n) s = Inr s1
    \<and> disconnect idleBridge = Inr idleBridge
    \<and> sessionPromise s1 = None \<and> inputAudioContext s1 = None
    \<and> outputAudioContext s1 = None \<and> stream s1 = None \<and> sources s1 = []
    \<and> \<not> isConnected s1 \<and> \<not> isTalking s1
    \<and> effects s1 = effects s @ new
    \<and> count_list new (SessionClosed k)
        = (if sessionPromise s = Some (Fulfilled k) then 1 else 0)
    \<and> count_list new InputContextClosed = (if inputAudioContext s = None then 0 else 1)
    \<and> count_list new OutputContextClosed = (if outputAudioContext s = None then 0 else 1)
    \<and> count_list new (TrackStopped t)
        = (case stream s of None \<Rightarrow> 0 | Some tracks \<Rightarrow> count_list tracks t)"
proof -
  let ?s1 = "s\<lparr>isConnected := False, isTalking := False, inputAudioContext := None,
               outputAudioContext := None, stream := None, sources := [],
               sessionPromise := None, effects := effects s @ released s\<rparr>"
  have first: "disconnect s = Inr ?s1" by (rule disconnect_eq)
  have "released ?s1 = []" by (simp add: released_def)
  then have second: "disconnect ?s1 = Inr ?s1" by (simp add: disconnect_eq)
  have many: "repeatDisconnect (Suc n) s = Inr ?s1"
    using first repeatDisconnect_fixed [OF second, of n] by (simp add: bindE_def)
  have idle: "disconnect idleBridge = Inr idleBridge"
    by (simp add: disconnect_eq released_def idleBridge_def)
  have fields: "sessionPromise ?s1 = None \<and> inputAudioContext ?s1 = None
    \<and> outputAudioContext ?s1 = None \<and> stream ?s1 = None \<and> sources ?s1 = []
    \<and> \<not> isConnected ?s1 \<and> \<not> isTalking ?s1 \<and> effects ?s1 = effects s @ released s"
    by simp
  show ?thesis
    using first second many idle fields count_released_session [of s k]
      count_released_input [of s] count_released_output [of s] count_released_track [of s t]
    by blast
qed

text \<open>The part after the \<open>await\<close> does not look at the ref again: it releases what an
  invocation on the ref still set would release.\<close>

lemma disconnectResume_eq:
  "disconnectResume p s =
     s\<lparr>isConnected := False, isTalking := False, inputAudioContext := None,
       outputAudioContext := None, stream := None, sources := [],
       sessionPromise := None,
       effects := effects s @ released (s\<lparr>sessionPromise := Some p\<rparr>)\<rparr>"
  by (cases p; cases "stream s")
     (simp_all add: disconnectResume_def teardown_def afterAwait_def stopSources_def
      closeContexts_def stopStream_def stopEachCaught_eq tryCatch_def emit_def released_def
      Let_def)

text \<open>So, from any state, two invocations that both resume with the fulfilled promise
  close the session twice.\<close>

lemma overlapping_resumes:
  "count_list
     (effects (disconnectResume (Fulfilled k) (disconnectResume (Fulfilled k) s)))
     (SessionClosed k)
   = count_list (effects s) (SessionClosed k) + 2"
proof -
  let ?s1 = "disconnectResume (Fulfilled k) s"
  have a: "effects ?s1 = effects s @ released (s\<lparr>sessionPromise := Some (Fulfilled k)\<rparr>)"
    by (simp add: disconnectResume_eq)
  have b: "effects (disconnectResume (Fulfilled k) ?s1)
      = effects ?s1 @ released (?s1\<lparr>sessionPromise := Some (Fulfilled k)\<rparr>)"
    by (simp add: disconnectResume_eq [of "Fulfilled k" ?s1])
  have c: "count_list (released (s\<lparr>sessionPromise := Some (Fulfilled k)\<rparr>)) (SessionClosed k) = 1"
    by (simp add: count_released_session)
  have d: "count_list (released (?s1\<lparr>sessionPromise := Some (Fulfilled k)\<rparr>)) (SessionClosed k) = 1"
    by (simp add: count_released_session)
  have app: "\<And>xs ys (e::effect). count_list (xs @ ys) e = count_list xs e + count_list ys e"
    by (induct_tac xs) auto
  show ?thesis unfolding b a using c d by (simp only: app)
qed

text \<open>
  C7. The claim fails on the code when two invocations overlap. The ref is tested before
  the \<open>await\<close> and cleared after it, so a second invocation that starts before the
  first has resumed reads the same promise; when the promise is fulfilled both call
  \<open>session.close()\<close>. On the open bridge the two invocations close the session twice
  (the contexts and the stream, tested and cleared without an \<open>await\<close> in between,
  once); \<open>overlapping_resumes\<close> gives the two closes from any state.
\<close>

theorem overlapping_disconnects_close_twice:
  "disconnectStart openBridge = Awaiting (Fulfilled 0)
   \<and> effects (disconnectResume (Fulfilled 0) (disconnectResume (Fulfilled 0) openBridge))
       = [SessionClosed 0, InputContextClosed, OutputContextClosed, TrackStopped 0,
          SessionClosed 0]
   \<and> count_list
        (effects (disconnectResume (Fulfilled 0) (disconnectResume (Fulfilled 0) openBridge)))
        (SessionClosed 0) = 2"
  by (simp add: disconnectStart_def disconnectResume_def teardown_def afterAwait_def
      stopSources_def closeContexts_def stopStream_def tryCatch_def emit_def
      openBridge_def idleBridge_def)


subsection \<open>Playback scheduling\<close>

lemma audioDelta_step:
  assumes "outputAudioContext s \<noteq> None" and "analyser s" and "b \<noteq> []"
    and "dec b = Some d" and "0 \<le> max (nextStartTime s) now"
  shows "onmessage dec now (audioDelta b) s =
     Inr (s\<lparr>isTalking := True,
            nextStartTime := max (nextStartTime s) now + d,
            sources := sources s @ [\<lparr>sid = created s, duration = d,
                                     startedAt = Some (max (nextStartTime s) now)\<rparr>],
            created := Suc (created s),
            effects := effects s @ [SourceStarted (created s) (max (nextStartTime s) now)]\<rparr>)"
  using assms
  by (auto simp: onmessage_def handleInterruption_def handleAudio_def handleTranscriptions_def
      whenText_def playBuffer_def start_def bindE_def tryCatch_def emit_def Let_def
      audioDelta_def not_less)

text \<open>In every state the hook reaches, the live sources have been started, their play
  windows are disjoint and in order, and none ends after the cursor.\<close>

definition windowEnd :: "source_node \<Rightarrow> real" where
  "windowEnd src = the (startedAt src) + duration src"

definition scheduled :: "bridge \<Rightarrow> bool" where
  "scheduled s \<longleftrightarrow>
     sorted_wrt (\<lambda>x y. windowEnd x \<le> the (startedAt y)) (sources s)
     \<and> (\<forall>src \<in> set (sources s). startedAt src \<noteq> None \<and> windowEnd src \<le> nextStartTime s)"

lemma handleAudio_scheduled:
  assumes "scheduled s" and "\<forall>b d. dec b = Some d \<longrightarrow> 0 \<le> d"
  shows "scheduled (handleAudio dec now m s)"
proof (cases "\<exists>b. inlineData m = Some b \<and> b \<noteq> [] \<and> outputAudioContext s \<noteq> None \<and> analyser s")
  case False
  then have "handleAudio dec now m s = s"
    by (auto simp: handleAudio_def whenText_def split: option.splits)
  then show ?thesis using assms(1) by simp
next
  case True
  then obtain b where b: "inlineData m = Some b" "b \<noteq> []" "outputAudioContext s \<noteq> None" "analyser s"
    by blast
  let ?a = "max (nextStartTime s) now"
  show ?thesis
  proof (cases "dec b")
    case None
    then have "handleAudio dec now m s
        = emit [ConsoleError] (s\<lparr>isTalking := True, nextStartTime := ?a\<rparr>)"
      using b by (simp add: handleAudio_def whenText_def playBuffer_def tryCatch_def Let_def)
    then show ?thesis using assms(1) by (fastforce simp: scheduled_def emit_def)
  next
    case (Some d)
    then have d: "0 \<le> d" using assms(2) by blast
    show ?thesis
    proof (cases "?a < 0")
      case True
      then have "handleAudio dec now m s
          = emit [ConsoleError] (s\<lparr>isTalking := True, nextStartTime := ?a\<rparr>)"
        using b Some
        by (simp add: handleAudio_def whenText_def playBuffer_def start_def bindE_def
            tryCatch_def Let_def)
      then show ?thesis using assms(1) by (fastforce simp: scheduled_def emit_def)
    next
      case False
      let ?src = "\<lparr>sid = created s, duration = d, startedAt = Some ?a\<rparr>"
      have eq: "sources (handleAudio dec now m s) = sources s @ [?src]
          \<and> nextStartTime (handleAudio dec now m s) = ?a + d"
        using b Some False
        by (simp add: handleAudio_def whenText_def playBuffer_def start_def bindE_def
            tryCatch_def emit_def Let_def)
      have old: "\<forall>x \<in> set (sources s). startedAt x \<noteq> None \<and> windowEnd x \<le> nextStartTime s"
        using assms(1) by (simp add: scheduled_def)
      have "sorted_wrt (\<lambda>x y. windowEnd x \<le> the (startedAt y)) (sources s @ [?src])"
        using assms(1) old by (fastforce simp: scheduled_def sorted_wrt_append)
      moreover have "\<forall>x \<in> set (sources s @ [?src]). startedAt x \<noteq> None \<and> windowEnd x \<le> ?a + d"
        using old d by (fastforce simp: windowEnd_def)
      ultimately show ?thesis using eq by (simp add: scheduled_def)
    qed
  qed
qed

lemma onmessage_scheduled:
  assumes "scheduled s" and "\<forall>b d. dec b = Some d \<longrightarrow> 0 \<le> d"
    and "onmessage dec now m s = Inr s'"
  shows "scheduled s'"
proof -
  let ?s1 = "handleTranscriptions m s"
  let ?s2 = "handleAudio dec now m ?s1"
  have "scheduled ?s1"
    using assms(1) handleTranscriptions_frame [of m s] by (simp add: scheduled_def)
  then have s2: "scheduled ?s2" using assms(2) by (rule handleAudio_scheduled)
  show ?thesis
  proof (cases "interrupted m")
    case False
    then show ?thesis using assms(3) s2 by (simp add: onmessage_def handleInterruption_def)
  next
    case True
    then have "sources s' = []"
      using assms(3)
      by (auto simp: onmessage_def handleInterruption_def bindE_def split: sum.splits)
    then show ?thesis by (simp add: scheduled_def)
  qed
qed

lemma onended_scheduled: "scheduled s \<Longrightarrow> scheduled (onended i s)"
  by (auto simp: scheduled_def onended_def Let_def sorted_wrt_filter)

lemma onmessages_scheduled:
  assumes "\<forall>b d. dec b = Some d \<longrightarrow> 0 \<le> d"
  shows "scheduled s \<Longrightarrow> onmessages dec ms s = Inr s' \<Longrightarrow> scheduled s'"
proof (induction ms arbitrary: s)
  case Nil
  then show ?case by simp
next
  case (Cons tm ms)
  obtain now m where tm: "tm = (now, m)" by (cases tm) auto
  from Cons.prems(2) obtain s1 where s1: "onmessage dec now m s = Inr s1"
    and rest: "onmessages dec ms s1 = Inr s'"
    by (auto simp: tm bindE_def split: sum.splits)
  have "scheduled s1" using onmessage_scheduled [OF Cons.prems(1) assms s1] .
  then show ?case using Cons.IH rest by blast
qed

text \<open>
  C1, the claim as stated fails: the cursor is a time on the clock of the playback
  context, not a sum of durations. With the first of three one-second buffers arriving
  at clock time 1 (the next two at 1.5 and 2.5, each before the previous one has
  finished), the cursor ends at 4, not at 3.
\<close>

theorem cursor_is_absolute_time:
  "map_sum id nextStartTime
     (onmessages oneSecond
        [(1, audioDelta (ascii ''AAAA'')), (3 / 2, audioDelta (ascii ''AAAA'')),
         (5 / 2, audioDelta (ascii ''AAAA''))] openBridge) = Inr 4
   \<and> oneSecond (ascii ''AAAA'') = Some 1 \<and> (4 :: real) \<noteq> 1 + 1 + 1"
  using threeQueued_reached
  by (simp add: threeQueued_def oneSecond_def del: onmessages.simps)

text \<open>
  C1, amended. Each audio delta that decodes is scheduled to start at
  \<open>max(nextStartTime, now)\<close>, and \<open>nextStartTime\<close> then advances by exactly the
  duration of its buffer. For three buffers arriving in order, the play windows do not
  overlap, and when each of the last two arrives before the previous one has finished
  the cursor ends at the start time of the first buffer plus \<open>d1 + d2 + d3\<close> (which is
  \<open>d1 + d2 + d3\<close> only when the first buffer starts at clock time 0). For sequences
  of any length and any messages, \<open>onmessages_scheduled\<close> keeps the live windows
  disjoint.
\<close>

theorem playback_scheduling:
  assumes "outputAudioContext s \<noteq> None" and "analyser s"
    and "b1 \<noteq> []" and "b2 \<noteq> []" and "b3 \<noteq> []"
    and "dec b1 = Some d1" and "dec b2 = Some d2" and "dec b3 = Some d3"
    and "0 \<le> d1" and "0 \<le> d2" and "0 \<le> d3" and "0 \<le> t1"
  shows "\<exists>s1 s2 s3 a1 a2 a3.
      onmessage dec t1 (audioDelta b1) s = Inr s1
    \<and> onmessage dec t2 (audioDelta b2) s1 = Inr s2
    \<and> onmessage dec t3 (audioDelta b3) s2 = Inr s3
    \<and> onmessages dec [(t1, audioDelta b1), (t2, audioDelta b2), (t3, audioDelta b3)] s = Inr s3
    \<and> a1 = max (nextStartTime s) t1 \<and> nextStartTime s1 = a1 + d1
    \<and> a2 = max (nextStartTime s1) t2 \<and> nextStartTime s2 = a2 + d2
    \<and> a3 = max (nextStartTime s2) t3 \<and> nextStartTime s3 = a3 + d3
    \<and> sources s3 = sources s
          @ [\<lparr>sid = created s, duration = d1, startedAt = Some a1\<rparr>,
             \<lparr>sid = created s + 1, duration = d2, startedAt = Some a2\<rparr>,
             \<lparr>sid = created s + 2, duration = d3, startedAt = Some a3\<rparr>]
    \<and> a1 + d1 \<le> a2 \<and> a2 + d2 \<le> a3 \<and> a1 + d1 \<le> a3
    \<and> (t2 \<le> nextStartTime s1 \<and> t3 \<le> nextStartTime s2
         \<longrightarrow> nextStartTime s3 = a1 + (d1 + d2 + d3))"
proof -
  define a1 where "a1 = max (nextStartTime s) t1"
  define s1 where "s1 = s\<lparr>isTalking := True, nextStartTime := a1 + d1,
      sources := sources s @ [\<lparr>sid = created s, duration = d1, startedAt = Some a1\<rparr>],
      created := Suc (created s),
      effects := effects s @ [SourceStarted (created s) a1]\<rparr>"
  define a2 where "a2 = max (nextStartTime s1) t2"
  define s2 where "s2 = s1\<lparr>isTalking := True, nextStartTime := a2 + d2,
      sources := sources s1 @ [\<lparr>sid = created s1, duration = d2, startedAt = Some a2\<rparr>],
      created := Suc (created s1),
      effects := effects s1 @ [SourceStarted (created s1) a2]\<rparr>"
  define a3 where "a3 = max (nextStartTime s2) t3"
  define s3 where "s3 = s2\<lparr>isTalking := True, nextStartTime := a3 + d3,
      sources := sources s2 @ [\<lparr>sid = created s2, duration = d3, startedAt = Some a3\<rparr>],
      created := Suc (created s2),
      effects := effects s2 @ [SourceStarted (created s2) a3]\<rparr>"
  have p1: "0 \<le> a1" using assms(12) by (simp add: a1_def max_def)
  have c1: "nextStartTime s1 = a1 + d1" by (simp add: s1_def)
  have p2: "0 \<le> a2" using p1 assms(9) c1 by (simp add: a2_def max_def)
  have c2: "nextStartTime s2 = a2 + d2" by (simp add: s2_def)
  have p3: "0 \<le> a3" using p2 assms(10) c2 by (simp add: a3_def max_def)
  have c3: "nextStartTime s3 = a3 + d3" by (simp add: s3_def)
  have ctx1: "outputAudioContext s1 \<noteq> None" "analyser s1"
    using assms(1,2) by (simp_all add: s1_def)
  have ctx2: "outputAudioContext s2 \<noteq> None" "analyser s2"
    using ctx1 by (simp_all add: s2_def)
  have r1: "onmessage dec t1 (audioDelta b1) s = Inr s1"
    unfolding s1_def a1_def
    using audioDelta_step [where s = s and b = b1 and dec = dec and d = d1 and now = t1]
      assms(1,2,3,6) p1
    by (simp add: a1_def)
  have r2: "onmessage dec t2 (audioDelta b2) s1 = Inr s2"
    unfolding s2_def a2_def
    using audioDelta_step [where s = s1 and b = b2 and dec = dec and d = d2 and now = t2]
      ctx1 assms(4,7) p2
    by (simp add: a2_def)
  have r3: "onmessage dec t3 (audioDelta b3) s2 = Inr s3"
    unfolding s3_def a3_def
    using audioDelta_step [where s = s2 and b = b3 and dec = dec and d = d3 and now = t3]
      ctx2 assms(5,8) p3
    by (simp add: a3_def)
  have rs: "onmessages dec [(t1, audioDelta b1), (t2, audioDelta b2), (t3, audioDelta b3)] s
      = Inr s3"
    using r1 r2 r3 by (simp add: bindE_def)
  have src: "sources s3 = sources s
          @ [\<lparr>sid = created s, duration = d1, startedAt = Some a1\<rparr>,
             \<lparr>sid = created s + 1, duration = d2, startedAt = Some a2\<rparr>,
             \<lparr>sid = created s + 2, duration = d3, startedAt = Some a3\<rparr>]"
    by (simp add: s3_def s2_def s1_def)
  have o12: "a1 + d1 \<le> a2" using c1 by (simp add: a2_def)
  have o23: "a2 + d2 \<le> a3" using c2 by (simp add: a3_def)
  have o13: "a1 + d1 \<le> a3" using o12 o23 assms(10) by linarith
  have timely: "t2 \<le> nextStartTime s1 \<and> t3 \<le> nextStartTime s2
         \<longrightarrow> nextStartTime s3 = a1 + (d1 + d2 + d3)"
    using c1 c2 c3 by (auto simp: a2_def a3_def max_def)
  show ?thesis
    using r1 r2 r3 rs a1_def c1 a2_def c2 a3_def c3 src o12 o23 o13 timely by blast
qed

theorem playback_scheduling_witness:
  "\<exists>s3. onmessages oneSecond
           [(1, audioDelta (ascii ''AAAA'')), (3 / 2, audioDelta (ascii ''AAAA'')),
            (5 / 2, audioDelta (ascii ''AAAA''))] openBridge = Inr s3
      \<and> nextStartTime s3 = 1 + (1 + 1 + 1)
      \<and> map startedAt (sources s3) = [Some 1, Some 2, Some 3]"
proof -
  have c: "outputAudioContext openBridge \<noteq> None" "analyser openBridge"
    by (simp_all add: openBridge_def idleBridge_def)
  have b: "ascii ''AAAA'' \<noteq> []" by (simp add: ascii_def)
  have d: "oneSecond (ascii ''AAAA'') = Some 1" by (simp add: oneSecond_def)
  have z: "(0::real) \<le> 1" by simp
  note th = playback_scheduling
      [where s = openBridge and dec = oneSecond and ?b1.0 = "ascii ''AAAA''"
         and ?b2.0 = "ascii ''AAAA''" and ?b3.0 = "ascii ''AAAA''"
         and ?d1.0 = 1 and ?d2.0 = 1 and ?d3.0 = 1
         and ?t1.0 = 1 and ?t2.0 = "3 / 2" and ?t3.0 = "5 / 2",
       OF c(1) c(2) b b b d d d z z z z]
  from th obtain s1 s2 s3 :: bridge and a1 a2 a3 :: real where
    all: "onmessage oneSecond 1 (audioDelta (ascii ''AAAA'')) openBridge = Inr s1
    \<and> onmessage oneSecond (3 / 2) (audioDelta (ascii ''AAAA'')) s1 = Inr s2
    \<and> onmessage oneSecond (5 / 2) (audioDelta (ascii ''AAAA'')) s2 = Inr s3
    \<and> onmessages oneSecond
           [(1, audioDelta (ascii ''AAAA'')), (3 / 2, audioDelta (ascii ''AAAA'')),
            (5 / 2, audioDelta (ascii ''AAAA''))] openBridge = Inr s3
    \<and> a1 = max (nextStartTime openBridge) 1 \<and> nextStartTime s1 = a1 + 1
    \<and> a2 = max (nextStartTime s1) (3 / 2) \<and> nextStartTime s2 = a2 + 1
    \<and> a3 = max (nextStartTime s2) (5 / 2) \<and> nextStartTime s3 = a3 + 1
    \<and> sources s3 = sources openBridge
          @ [\<lparr>sid = created openBridge, duration = 1, startedAt = Some a1\<rparr>,
             \<lparr>sid = created openBridge + 1, duration = 1, startedAt = Some a2\<rparr>,
             \<lparr>sid = created openBridge + 2, duration = 1, startedAt = Some a3\<rparr>]
    \<and> a1 + 1 \<le> a2 \<and> a2 + 1 \<le> a3 \<and> a1 + 1 \<le> a3
    \<and> (3 / 2 \<le> nextStartTime s1 \<and> 5 / 2 \<le> nextStartTime s2
         \<longrightarrow> nextStartTime s3 = a1 + (1 + 1 + 1))"
    by (elim exE) (rule that)
  from all have rs: "onmessages oneSecond
           [(1, audioDelta (ascii ''AAAA'')), (3 / 2, audioDelta (ascii ''AAAA'')),
            (5 / 2, audioDelta (ascii ''AAAA''))] openBridge = Inr s3"
    and a1: "a1 = max (nextStartTime openBridge) 1" and c1: "nextStartTime s1 = a1 + 1"
    and a2: "a2 = max (nextStartTime s1) (3 / 2)" and c2: "nextStartTime s2 = a2 + 1"
    and a3: "a3 = max (nextStartTime s2) (5 / 2)"
    and src: "sources s3 = sources openBridge
          @ [\<lparr>sid = created openBridge, duration = 1, startedAt = Some a1\<rparr>,
             \<lparr>sid = created openBridge + 1, duration = 1, startedAt = Some a2\<rparr>,
             \<lparr>sid = created openBridge + 2, duration = 1, startedAt = Some a3\<rparr>]"
    and timely: "3 / 2 \<le> nextStartTime s1 \<and> 5 / 2 \<le> nextStartTime s2
         \<longrightarrow> nextStartTime s3 = a1 + (1 + 1 + 1)"
    by blast+
  have v1: "a1 = 1" using a1 by (simp add: openBridge_def idleBridge_def)
  have v2: "a2 = 2" using a2 c1 v1 by simp
  have v3: "a3 = 3" using a3 c2 v2 by simp
  have f1: "nextStartTime s3 = 1 + (1 + 1 + 1)" using timely c1 c2 v1 v2 by simp
  have f2: "map startedAt (sources s3) = [Some 1, Some 2, Some 3]"
    using src v1 v2 v3 by (simp add: openBridge_def idleBridge_def)
  show ?thesis
    by (rule exI [of _ s3], intro conjI, rule rs, rule f1, rule f2)
qed


section \<open>The Session component\<close>

text \<open>
  The component is a function that React calls once per render. The state variables
  (\<open>useState\<close>) are constants of one render, and a function created in a render sees
  the values of that render for as long as it lives; a setter called with a function
  (\<open>setX(prev => ...)\<close>) and a ref (\<open>useRef\<close>) reach the current value. So a handler
  takes two arguments: the \<open>render\<close> whose closure it is, and the current state.
  The camera stream, \<open>startTime\<close> and the duration passed to \<open>onComplete\<close> are left
  out.
\<close>

datatype role = User | Model

record chat_message =
  msg_role :: role
  msg_text :: jsstring
  msg_timestamp :: nat

datatype call = OnUpdateCredits int | OnComplete evaluation int

record render =
  r_currentTurnRole :: "role option"
  r_currentTurnText :: jsstring
  r_isFinishing :: bool
  r_remainingCredits :: int

text \<open>
  \<open>hook\<close> is the state of \<open>useLiveAvatar\<close>, \<open>creditTimer\<close> the interval of the credit
  timer when it is live (with the render that created its callback), \<open>syncTimer\<close> the
  interval of the periodic sync when it is live (the seconds left before it fires, and
  the render that created its callback), and \<open>calls\<close> the calls made on the props
  \<open>onUpdateCredits\<close> and \<open>onComplete\<close>, in order.
\<close>

record session =
  messages :: "chat_message list"
  isFinishing :: bool
  hasStarted :: bool
  remainingCredits :: int
  showCreditModal :: bool
  currentTurnText :: jsstring
  currentTurnRole :: "role option"
  fullTranscript :: jsstring
  lastSyncCredits :: int
  hook :: bridge
  creditTimer :: "render option"
  syncTimer :: "(nat \<times> render) option"
  calls :: "call list"

definition render :: "session \<Rightarrow> render" where
  "render s =
     \<lparr>r_currentTurnRole = currentTurnRole s, r_currentTurnText = currentTurnText s,
      r_isFinishing = isFinishing s, r_remainingCredits = remainingCredits s\<rparr>"

text \<open>\<open>`${currentTurnRole === 'user' ? 'User' : 'Avatar'}: ${currentTurnText}\n`\<close>\<close>

definition transcriptLine :: "role \<Rightarrow> jsstring \<Rightarrow> jsstring" where
  "transcriptLine r t = (if r = User then ascii ''User'' else ascii ''Avatar'') @ ascii '': '' @ t @ [10]"

subsection \<open>onTranscriptUpdate\<close>

definition onTranscriptUpdate :: "render \<Rightarrow> nat \<Rightarrow> jsstring \<Rightarrow> bool \<Rightarrow> session \<Rightarrow> session" where
  "onTranscriptUpdate r now t isUser s =
     (let role = (if isUser then User else Model) in
      (case r_currentTurnRole r of
         Some turnRole \<Rightarrow>
           if turnRole \<noteq> role then
             s\<lparr>messages := messages s
                  @ [\<lparr>msg_role = turnRole, msg_text = r_currentTurnText r, msg_timestamp = now\<rparr>],
               fullTranscript := fullTranscript s @ transcriptLine turnRole (r_currentTurnText r),
               currentTurnText := t\<rparr>
           else s\<lparr>currentTurnText := currentTurnText s @ t\<rparr>
       | None \<Rightarrow> s\<lparr>currentTurnText := currentTurnText s @ t\<rparr>)
      \<lparr>currentTurnRole := Some role\<rparr>)"

text \<open>
  \<open>connect\<close> builds the callbacks of the live session once, so every delta is handled by
  the \<open>onTranscriptUpdate\<close> of the render in which \<open>connect\<close> was called:
  \<open>deliver r\<close>. \<open>deliverFresh\<close> is the same loop with the handler of the current render
  at each delta. A delta is (clock, text, isUser).
\<close>

fun deliver :: "render \<Rightarrow> (nat \<times> jsstring \<times> bool) list \<Rightarrow> session \<Rightarrow> session" where
  "deliver r [] s = s"
| "deliver r ((now, t, isUser) # rest) s = deliver r rest (onTranscriptUpdate r now t isUser s)"

fun deliverFresh :: "(nat \<times> jsstring \<times> bool) list \<Rightarrow> session \<Rightarrow> session" where
  "deliverFresh [] s = s"
| "deliverFresh ((now, t, isUser) # rest) s =
     deliverFresh rest (onTranscriptUpdate (render s) now t isUser s)"

subsection \<open>handleFinish\<close>

text \<open>
  \<open>handleFinish\<close> is \<open>async\<close>: it never throws into its caller; if \<open>disconnect\<close> threw,
  the steps after it would not run. \<open>forcedCredits\<close> is \<open>None\<close> when the argument is
  not a number.
\<close>

definition finalTranscript :: "render \<Rightarrow> session \<Rightarrow> jsstring" where
  "finalTranscript r s =
     fullTranscript s
     @ (case r_currentTurnRole r of
          None \<Rightarrow> []
        | Some turnRole \<Rightarrow>
            if r_currentTurnText r \<noteq> [] then transcriptLine turnRole (r_currentTurnText r) else [])"

definition handleFinish ::
  "(jsstring \<Rightarrow> collab_reply) \<Rightarrow> render \<Rightarrow> int option \<Rightarrow> session \<Rightarrow> session" where
  "handleFinish collab r forcedCredits s =
     (if r_isFinishing r then s
      else
        (let s1 = s\<lparr>isFinishing := True\<rparr>;
             finalCredits = (case forcedCredits of Some n \<Rightarrow> n | None \<Rightarrow> r_remainingCredits r)
         in case disconnect (hook s1) of
              Inl e \<Rightarrow> s1
            | Inr h \<Rightarrow>
                s1\<lparr>hook := h,
                   calls := calls s1
                     @ [OnComplete (fst (evaluateSession collab (finalTranscript r s1))) finalCredits]\<rparr>))"

subsection \<open>The credit timer and the periodic sync\<close>

text \<open>The body of the credit timer effect, run when one of its dependencies
  (\<open>hasStarted\<close>, \<open>isConnected\<close>, \<open>isFinishing\<close>, \<open>showCreditModal\<close>) has changed: the
  old interval is cleared and, unless the guard returns, a new one is set.\<close>

definition creditEffect :: "session \<Rightarrow> session" where
  "creditEffect s =
     s\<lparr>creditTimer :=
         (if \<not> hasStarted s \<or> \<not> isConnected (hook s) \<or> isFinishing s \<or> showCreditModal s
          then None else Some (render s))\<rparr>"

text \<open>One firing of the interval, if it is live.\<close>

definition tick :: "(jsstring \<Rightarrow> collab_reply) \<Rightarrow> session \<Rightarrow> session" where
  "tick collab s =
     (case creditTimer s of
        None \<Rightarrow> s
      | Some r \<Rightarrow>
          (let newVal = remainingCredits s - 1 in
           if newVal \<le> 0 then
             creditEffect
               ((handleFinish collab r (Some 0)
                   (s\<lparr>creditTimer := None, calls := calls s @ [OnUpdateCredits 0]\<rparr>))
                \<lparr>showCreditModal := True, remainingCredits := 0\<rparr>)
           else s\<lparr>remainingCredits := newVal\<rparr>))"

fun ticks :: "(jsstring \<Rightarrow> collab_reply) \<Rightarrow> nat \<Rightarrow> session \<Rightarrow> session" where
  "ticks collab 0 s = s"
| "ticks collab (Suc n) s = ticks collab n (tick collab s)"

text \<open>
  The body of the sync effect, run when one of its dependencies (\<open>remainingCredits\<close>,
  \<open>hasStarted\<close>, \<open>isFinishing\<close>; the prop \<open>onUpdateCredits\<close> is taken as stable)
  has changed: the old interval is cleared and, unless the guard returns, a new one of
  10000 ms is set.
\<close>

definition syncEffect :: "session \<Rightarrow> session" where
  "syncEffect s =
     s\<lparr>syncTimer :=
         (if \<not> hasStarted s \<or> isFinishing s then None else Some (10, render s))\<rparr>"

text \<open>One firing of the sync interval: the callback, with \<open>remainingCredits\<close> of its
  render and the ref \<open>lastSyncCreditsRef\<close>.\<close>

definition syncStep :: "render \<Rightarrow> session \<Rightarrow> session" where
  "syncStep r s =
     (if \<bar>lastSyncCredits s - r_remainingCredits r\<bar> \<ge> 5 then
        s\<lparr>calls := calls s @ [OnUpdateCredits (r_remainingCredits r)],
          lastSyncCredits := r_remainingCredits r\<rparr>
      else s)"

text \<open>
  One second of the session. The credit interval (1000 ms), if it is live, fires. When
  that has changed a dependency of the sync effect, React runs the effect again after
  the render: the sync interval is cleared and set anew. Otherwise one second of the
  sync interval elapses, and its callback runs when none is left.
\<close>

definition second :: "(jsstring \<Rightarrow> collab_reply) \<Rightarrow> session \<Rightarrow> session" where
  "second collab s =
     (let s1 = tick collab s in
      if remainingCredits s1 \<noteq> remainingCredits s \<or> hasStarted s1 \<noteq> hasStarted s
         \<or> isFinishing s1 \<noteq> isFinishing s
      then syncEffect s1
      else
        (case syncTimer s1 of
           None \<Rightarrow> s1
         | Some (n, r) \<Rightarrow>
             if n \<le> 1 then (syncStep r s1)\<lparr>syncTimer := Some (10, r)\<rparr>
             else s1\<lparr>syncTimer := Some (n - 1, r)\<rparr>))"

fun seconds :: "(jsstring \<Rightarrow> collab_reply) \<Rightarrow> nat \<Rightarrow> session \<Rightarrow> session" where
  "seconds collab 0 s = s"
| "seconds collab (Suc n) s = seconds collab n (second collab s)"

text \<open>The component when it is mounted with \<open>user.credits = credits\<close>, and once
  \<open>handleStart\<close> has run and the live session is open.\<close>

definition mounted :: "int \<Rightarrow> session" where
  "mounted credits =
     \<lparr>messages = [], isFinishing = False, hasStarted = False, remainingCredits = credits,
      showCreditModal = False, currentTurnText = [], currentTurnRole = None,
      fullTranscript = [], lastSyncCredits = credits, hook = idleBridge,
      creditTimer = None, syncTimer = None, calls = []\<rparr>"

definition handleStart :: "int \<Rightarrow> session \<Rightarrow> session" where
  "handleStart credits s =
     (if credits \<le> 0 then s\<lparr>showCreditModal := True\<rparr> else s\<lparr>hasStarted := True\<rparr>)"

definition opened :: "int \<Rightarrow> session" where
  "opened credits =
     creditEffect (syncEffect ((handleStart credits (mounted credits))\<lparr>hook := openBridge\<rparr>))"


subsection \<open>Turn assembly\<close>

definition specDeltas :: "(nat \<times> jsstring \<times> bool) list" where
  "specDeltas = [(1, ascii ''Hi'', True), (2, ascii '' there'', True), (3, ascii ''Hello'', False)]"

text \<open>What the handler of the current render does with one delta: a delta of the other
  role seals the open turn and opens a new one with the text of the delta, any other
  delta is appended to the open turn.\<close>

lemma onTranscriptUpdate_fresh:
  "onTranscriptUpdate (render s) now t isUser s =
     (if currentTurnRole s = Some (if isUser then Model else User) then
        s\<lparr>messages := messages s
             @ [\<lparr>msg_role = (if isUser then Model else User), msg_text = currentTurnText s,
                 msg_timestamp = now\<rparr>],
          fullTranscript := fullTranscript s
             @ transcriptLine (if isUser then Model else User) (currentTurnText s),
          currentTurnText := t,
          currentTurnRole := Some (if isUser then User else Model)\<rparr>
      else s\<lparr>currentTurnText := currentTurnText s @ t,
             currentTurnRole := Some (if isUser then User else Model)\<rparr>)"
  by (cases "currentTurnRole s"; cases isUser; cases "the (currentTurnRole s)")
     (simp_all add: onTranscriptUpdate_def render_def Let_def)

text \<open>With the handler of the current render at each delta, the three deltas give one
  sealed user message and an open model turn, and finishing gives a transcript of two
  lines.\<close>

lemma deliverFresh_specDeltas:
  "deliverFresh specDeltas (opened 65) =
     (opened 65)\<lparr>messages := [\<lparr>msg_role = User, msg_text = ascii ''Hi there'', msg_timestamp = 3\<rparr>],
                 fullTranscript := ascii ''User: Hi there'' @ [10],
                 currentTurnText := ascii ''Hello'',
                 currentTurnRole := Some Model\<rparr>"
  by (simp add: specDeltas_def onTranscriptUpdate_def render_def transcriptLine_def opened_def syncEffect_def
      handleStart_def mounted_def creditEffect_def openBridge_def idleBridge_def ascii_def Let_def)

lemma finalTranscript_fresh:
  "finalTranscript (render (deliverFresh specDeltas (opened 65)))
     (deliverFresh specDeltas (opened 65))
   = ascii ''User: Hi there'' @ [10] @ ascii ''Avatar: Hello'' @ [10]"
  by (simp add: deliverFresh_specDeltas finalTranscript_def render_def transcriptLine_def
      ascii_def del: deliverFresh.simps)

text \<open>The general fact behind it: a handler whose render has no open turn never seals,
  whatever the deltas; it appends every text to the open turn.\<close>

lemma deliver_without_turn:
  assumes "r_currentTurnRole r = None"
  shows "messages (deliver r ds s) = messages s
       \<and> fullTranscript (deliver r ds s) = fullTranscript s
       \<and> currentTurnText (deliver r ds s) = currentTurnText s @ concat (map (\<lambda>d. fst (snd d)) ds)"
proof (induction ds arbitrary: s)
  case Nil
  then show ?case by simp
next
  case (Cons d ds)
  obtain now t isUser where d: "d = (now, t, isUser)" by (cases d) auto
  let ?s1 = "onTranscriptUpdate r now t isUser s"
  have s1: "messages ?s1 = messages s \<and> fullTranscript ?s1 = fullTranscript s
      \<and> currentTurnText ?s1 = currentTurnText s @ t"
    using assms by (simp add: onTranscriptUpdate_def Let_def)
  show ?case using Cons [of ?s1] s1 by (simp add: d)
qed

text \<open>
  C3. The claim fails on the code. The deltas are handled by the \<open>onTranscriptUpdate\<close>
  of the render in which \<open>connect\<close> ran, where \<open>currentTurnRole\<close> is \<open>null\<close>; the
  branch that seals a turn is never taken. The three deltas of the claim leave no sealed
  message and one open turn of role model with the text of both speakers, and
  finishing gives a transcript of one line. (\<open>deliver_without_turn\<close>: the same for
  every sequence of deltas.)
\<close>

theorem stale_handler_never_seals:
  "messages (deliver (render (mounted 65)) specDeltas (opened 65)) = []
   \<and> fullTranscript (deliver (render (mounted 65)) specDeltas (opened 65)) = []
   \<and> currentTurnRole (deliver (render (mounted 65)) specDeltas (opened 65)) = Some Model
   \<and> currentTurnText (deliver (render (mounted 65)) specDeltas (opened 65))
       = ascii ''Hi thereHello''
   \<and> finalTranscript (render (deliver (render (mounted 65)) specDeltas (opened 65)))
        (deliver (render (mounted 65)) specDeltas (opened 65))
       = ascii ''Avatar: Hi thereHello'' @ [10]"
  by (simp add: specDeltas_def onTranscriptUpdate_def render_def transcriptLine_def opened_def syncEffect_def
      finalTranscript_def handleStart_def mounted_def creditEffect_def openBridge_def
      idleBridge_def ascii_def Let_def)


subsection \<open>The credit timer\<close>

lemma opened_fields:
  assumes "1 \<le> c"
  shows "creditTimer (opened c) = Some (render (mounted c))"
    and "remainingCredits (opened c) = c" and "calls (opened c) = []"
    and "\<not> showCreditModal (opened c)" and "\<not> isFinishing (opened c)"
    and "hasStarted (opened c)" and "lastSyncCredits (opened c) = c"
    and "fullTranscript (opened c) = []"
  using assms
  by (simp_all add: opened_def syncEffect_def creditEffect_def handleStart_def mounted_def render_def
      openBridge_def idleBridge_def)

lemma tick_running:
  "creditTimer s = Some r \<Longrightarrow> 1 < remainingCredits s \<Longrightarrow>
   tick collab s = s\<lparr>remainingCredits := remainingCredits s - 1\<rparr>"
  by (simp add: tick_def Let_def)

lemma tick_stopped: "creditTimer s = None \<Longrightarrow> tick collab s = s"
  by (simp add: tick_def)

lemma ticks_stopped: "creditTimer s = None \<Longrightarrow> ticks collab n s = s"
  by (induction n) (simp_all add: tick_stopped)

lemma ticks_add: "ticks collab (m + n) s = ticks collab n (ticks collab m s)"
  by (induction m arbitrary: s) simp_all

lemma ticks_running:
  assumes "1 \<le> c" and "int j < c"
  shows "ticks collab j (opened c) = (opened c)\<lparr>remainingCredits := c - int j\<rparr>"
  using assms(2)
proof (induction j)
  case 0
  then show ?case by (simp add: opened_fields(2) [OF assms(1)])
next
  case (Suc j)
  let ?s = "(opened c)\<lparr>remainingCredits := c - int j\<rparr>"
  have prev: "ticks collab j (opened c) = ?s" using Suc by simp
  have t: "creditTimer ?s = Some (render (mounted c))"
    using opened_fields(1) [OF assms(1)] by simp
  have r: "1 < remainingCredits ?s" using Suc.prems by simp
  have "ticks collab (Suc j) (opened c) = tick collab (ticks collab j (opened c))"
    using ticks_add [of collab j 1 "opened c"] by simp
  also have "\<dots> = tick collab ?s" using prev by simp
  also have "\<dots> = ?s\<lparr>remainingCredits := remainingCredits ?s - 1\<rparr>"
    using tick_running [OF t r] .
  also have "\<dots> = (opened c)\<lparr>remainingCredits := c - int (Suc j)\<rparr>"
    by (simp add: algebra_simps)
  finally show ?case .
qed

text \<open>The state in which the tick from 1 to 0 leaves the component.\<close>

definition exhausted :: "(jsstring \<Rightarrow> collab_reply) \<Rightarrow> int \<Rightarrow> session" where
  "exhausted collab c = tick collab ((opened c)\<lparr>remainingCredits := 1\<rparr>)"

lemma exhausted_fields:
  assumes "1 \<le> c"
  shows "remainingCredits (exhausted collab c) = 0"
    and "creditTimer (exhausted collab c) = None"
    and "showCreditModal (exhausted collab c)"
    and "isFinishing (exhausted collab c)"
    and "calls (exhausted collab c)
           = [OnUpdateCredits 0, OnComplete (fst (evaluateSession collab [])) 0]"
  using assms
  by (simp_all add: exhausted_def tick_def Let_def handleFinish_def disconnect_eq
      finalTranscript_def creditEffect_def opened_def syncEffect_def handleStart_def mounted_def render_def
      openBridge_def idleBridge_def)

lemma ticks_exhausted:
  assumes "1 \<le> c" and "c \<le> int k"
  shows "ticks collab k (opened c) = exhausted collab c"
proof -
  obtain j where j: "int j = c - 1" using assms(1) by (metis nat_0_le diff_ge_0_iff_ge)
  then have jk: "j < k" using assms(2) by linarith
  then obtain m where k: "k = j + (1 + m)" by (metis less_iff_Suc_add add_Suc_right plus_1_eq_Suc add_Suc)
  have "ticks collab j (opened c) = (opened c)\<lparr>remainingCredits := c - int j\<rparr>"
    using ticks_running [OF assms(1), of j collab] j by simp
  then have a: "ticks collab j (opened c) = (opened c)\<lparr>remainingCredits := 1\<rparr>"
    using j by simp
  have "ticks collab k (opened c) = ticks collab m (ticks collab 1 (ticks collab j (opened c)))"
    unfolding k by (simp only: ticks_add)
  also have "\<dots> = ticks collab m (exhausted collab c)"
    using a by (simp add: exhausted_def)
  also have "\<dots> = exhausted collab c"
    using ticks_stopped [OF exhausted_fields(2) [OF assms(1)]] .
  finally show ?thesis .
qed

text \<open>
  C5. While the interval of the credit timer is live, a tick takes 1 from the remaining
  credits, with floor 0. From a session opened with \<open>c \<ge> 1\<close> seconds of credits (65 in
  the claim), after \<open>k\<close> ticks the remaining credits are \<open>max 0 (c - k)\<close>; from tick
  \<open>c\<close> on the interval is cleared, the out-of-credits modal is shown, \<open>0\<close> has been
  pushed to storage and the forced finish has completed exactly once, however many
  further ticks are attempted; before tick \<open>c\<close> nothing of this has happened.
\<close>

theorem credit_timer:
  assumes "1 \<le> c"
  shows "(creditTimer s \<noteq> None \<longrightarrow>
            remainingCredits (tick collab s) = max 0 (remainingCredits s - 1))
    \<and> remainingCredits (ticks collab k (opened c)) = max 0 (c - int k)
    \<and> (creditTimer (ticks collab k (opened c)) = None \<longleftrightarrow> c \<le> int k)
    \<and> (showCreditModal (ticks collab k (opened c)) \<longleftrightarrow> c \<le> int k)
    \<and> (isFinishing (ticks collab k (opened c)) \<longleftrightarrow> c \<le> int k)
    \<and> calls (ticks collab k (opened c))
        = (if c \<le> int k
           then [OnUpdateCredits 0, OnComplete (fst (evaluateSession collab [])) 0]
           else [])"
proof -
  have step: "creditTimer s \<noteq> None \<longrightarrow>
            remainingCredits (tick collab s) = max 0 (remainingCredits s - 1)"
    by (auto simp: tick_def Let_def creditEffect_def handleFinish_def max_def
        split: option.splits sum.splits)
  show ?thesis
  proof (cases "c \<le> int k")
    case True
    have e: "ticks collab k (opened c) = exhausted collab c"
      using ticks_exhausted [OF assms True] .
    show ?thesis
      using step True exhausted_fields [OF assms, of collab] by (simp add: e)
  next
    case False
    then have lt: "int k < c" by simp
    have e: "ticks collab k (opened c) = (opened c)\<lparr>remainingCredits := c - int k\<rparr>"
      using ticks_running [OF assms lt] .
    show ?thesis
      using step False lt opened_fields [OF assms] by (simp add: e)
  qed
qed

definition noCollab :: "jsstring \<Rightarrow> collab_reply" where
  "noCollab t = CollabError"

theorem credit_timer_witness:
  "remainingCredits (ticks noCollab 65 (opened 65)) = 0
   \<and> creditTimer (ticks noCollab 65 (opened 65)) = None
   \<and> showCreditModal (ticks noCollab 65 (opened 65))
   \<and> calls (ticks noCollab 65 (opened 65))
       = [OnUpdateCredits 0, OnComplete (fst (evaluateSession noCollab [])) 0]
   \<and> calls (ticks noCollab 70 (opened 65))
       = [OnUpdateCredits 0, OnComplete (fst (evaluateSession noCollab [])) 0]
   \<and> remainingCredits (ticks noCollab 64 (opened 65)) = 1
   \<and> calls (ticks noCollab 64 (opened 65)) = []
   \<and> remainingCredits (tick noCollab (opened 65)) = 64"
proof -
  have c: "(1::int) \<le> 65" by simp
  have t: "creditTimer (opened 65) \<noteq> None" using opened_fields(1) [OF c] by simp
  have r: "remainingCredits (opened 65) = 65" using opened_fields(2) [OF c] .
  show ?thesis
    using credit_timer [OF c, of "opened 65" noCollab 65]
      credit_timer [OF c, of "opened 65" noCollab 70]
      credit_timer [OF c, of "opened 65" noCollab 64] t r
    by simp
qed


subsection \<open>The periodic sync\<close>

text \<open>How far the remaining credits are from the value last pushed by the sync.\<close>

definition drift :: "session \<Rightarrow> int" where
  "drift s = \<bar>lastSyncCredits s - remainingCredits s\<bar>"

text \<open>The callback itself pushes the credits of its render when they are 5 or more away
  from the value last pushed.\<close>

lemma syncStep_pushes:
  "calls (syncStep r s)
     = calls s @ (if 5 \<le> \<bar>lastSyncCredits s - r_remainingCredits r\<bar>
                  then [OnUpdateCredits (r_remainingCredits r)] else [])"
  by (simp add: syncStep_def)

lemma opened_syncTimer:
  "1 \<le> c \<Longrightarrow> syncTimer (opened c) = Some (10, render (mounted c))"
  by (simp add: opened_def syncEffect_def creditEffect_def handleStart_def mounted_def render_def)

text \<open>While the credit timer runs, every second changes \<open>remainingCredits\<close>, so every
  second ends with the sync interval set anew, 10 seconds from firing.\<close>

lemma second_running:
  assumes "creditTimer s = Some r" and "1 < remainingCredits s"
    and "hasStarted s" and "\<not> isFinishing s"
  shows "second collab s =
     s\<lparr>remainingCredits := remainingCredits s - 1,
       syncTimer := Some (10, (render s)\<lparr>r_remainingCredits := remainingCredits s - 1\<rparr>)\<rparr>"
  using assms by (simp add: second_def tick_running syncEffect_def render_def Let_def)

lemma seconds_add: "seconds collab (m + n) s = seconds collab n (seconds collab m s)"
  by (induction m arbitrary: s) simp_all

lemma seconds_running:
  assumes "1 \<le> c" and "int j < c"
  shows "seconds collab j (opened c) =
     (opened c)\<lparr>remainingCredits := c - int j,
                syncTimer := Some (10, (render (mounted c))\<lparr>r_remainingCredits := c - int j\<rparr>)\<rparr>"
  using assms(2)
proof (induction j)
  case 0
  have "(render (mounted c))\<lparr>r_remainingCredits := c\<rparr> = render (mounted c)"
    by (simp add: render_def mounted_def)
  then show ?case
    using opened_fields(2) [OF assms(1)] opened_syncTimer [OF assms(1)] by simp
next
  case (Suc j)
  let ?s = "(opened c)\<lparr>remainingCredits := c - int j,
                syncTimer := Some (10, (render (mounted c))\<lparr>r_remainingCredits := c - int j\<rparr>)\<rparr>"
  have prev: "seconds collab j (opened c) = ?s" using Suc by simp
  have t: "creditTimer ?s = Some (render (mounted c))"
    using opened_fields(1) [OF assms(1)] by simp
  have r: "1 < remainingCredits ?s" using Suc.prems by simp
  have h: "hasStarted ?s" "\<not> isFinishing ?s" using opened_fields [OF assms(1)] by simp_all
  have rd: "(render ?s)\<lparr>r_remainingCredits := remainingCredits ?s - 1\<rparr>
      = (render (mounted c))\<lparr>r_remainingCredits := c - int (Suc j)\<rparr>"
    by (simp add: render_def opened_def syncEffect_def creditEffect_def handleStart_def mounted_def
        algebra_simps)
  have "seconds collab (Suc j) (opened c) = second collab (seconds collab j (opened c))"
    using seconds_add [of collab j 1 "opened c"] by simp
  also have "\<dots> = second collab ?s" using prev by simp
  also have "\<dots> = ?s\<lparr>remainingCredits := remainingCredits ?s - 1,
       syncTimer := Some (10, (render ?s)\<lparr>r_remainingCredits := remainingCredits ?s - 1\<rparr>)\<rparr>"
    using second_running [OF t r h] .
  also have "\<dots> = (opened c)\<lparr>remainingCredits := c - int (Suc j),
                syncTimer := Some (10, (render (mounted c))\<lparr>r_remainingCredits := c - int (Suc j)\<rparr>)\<rparr>"
    unfolding rd by (simp add: algebra_simps)
  finally show ?case .
qed

text \<open>With the credit timer stopped (here the connection is lost after 10 seconds),
  \<open>remainingCredits\<close> rests, the interval lives its 10 seconds and the callback runs.\<close>

definition connectionLost :: "session \<Rightarrow> session" where
  "connectionLost s = creditEffect (s\<lparr>hook := (hook s)\<lparr>isConnected := False\<rparr>\<rparr>)"

lemma sync_fires_when_credits_rest:
  "calls (seconds noCollab 10 (connectionLost (seconds noCollab 10 (opened 100))))
     = [OnUpdateCredits 90]"
proof -
  have c: "(1::int) \<le> 100" by simp
  have e: "seconds noCollab 10 (opened 100) =
     (opened 100)\<lparr>remainingCredits := 100 - int 10,
                syncTimer := Some (10, (render (mounted 100))\<lparr>r_remainingCredits := 100 - int 10\<rparr>)\<rparr>"
    by (rule seconds_running [OF c]) simp
  show ?thesis
    unfolding e
    by (simp add: connectionLost_def eval_nat_numeral second_def tick_def syncStep_def
        creditEffect_def opened_def syncEffect_def handleStart_def mounted_def render_def
        openBridge_def idleBridge_def Let_def)
qed

text \<open>
  C8. The claim fails on the code. \<open>remainingCredits\<close> is a dependency of the sync
  effect, so every tick of the credit timer clears the 10-second interval and sets it
  anew: while the credits tick, the step never runs. Sixty seconds into a session opened
  with 100 seconds of credits nothing has been pushed to storage and the drift is 60.
\<close>

theorem sync_never_runs_while_ticking:
  "calls (seconds noCollab 60 (opened 100)) = []
   \<and> remainingCredits (seconds noCollab 60 (opened 100)) = 40
   \<and> lastSyncCredits (seconds noCollab 60 (opened 100)) = 100
   \<and> drift (seconds noCollab 60 (opened 100)) = 60
   \<and> map_option fst (syncTimer (seconds noCollab 60 (opened 100))) = Some 10"
proof -
  have c: "(1::int) \<le> 100" by simp
  have e: "seconds noCollab 60 (opened 100) =
     (opened 100)\<lparr>remainingCredits := 100 - int 60,
                syncTimer := Some (10, (render (mounted 100))\<lparr>r_remainingCredits := 100 - int 60\<rparr>)\<rparr>"
    by (rule seconds_running [OF c]) simp
  show ?thesis using opened_fields [OF c] by (simp add: e drift_def)
qed


end
